theory Spec2Isabelle
  imports Complex_Main "HOL-Library.Sublist"
begin

section \<open>Edge controller: configuration and actuator state\<close>

text \<open>
  \<^verbatim>\<open>edge_control_system.py\<close> drives five relays from four sensor readings.
  The readings are Python floats that are only ever compared with the constants below;
  on finite floats these comparisons agree with the order of the reals, so a reading is
  a \<^typ>\<open>real\<close>. The five \<^verbatim>\<open>OutputDevice\<close> objects are read through
  \<^verbatim>\<open>is_active\<close> and written through \<^verbatim>\<open>on()\<close> and \<^verbatim>\<open>off()\<close>
  only, so each one is a boolean field.
\<close>

definition TARGET_MOISTURE_LOW :: real where "TARGET_MOISTURE_LOW = 40.0"
definition TARGET_MOISTURE_HIGH :: real where "TARGET_MOISTURE_HIGH = 65.0"
definition TARGET_TEMP_HIGH :: real where "TARGET_TEMP_HIGH = 32.0"
definition TARGET_TEMP_OPTIMAL :: real where "TARGET_TEMP_OPTIMAL = 28.0"
definition TARGET_HUMIDITY_HIGH :: real where "TARGET_HUMIDITY_HIGH = 80.0"
definition TARGET_HUMIDITY_LOW :: real where "TARGET_HUMIDITY_LOW = 60.0"
definition TARGET_LIGHT_HIGH :: real where "TARGET_LIGHT_HIGH = 30000.0"
definition TARGET_LIGHT_LOW :: real where "TARGET_LIGHT_LOW = 15000.0"

record actuators =
  pump :: bool
  fan :: bool
  mister :: bool
  led_light :: bool
  shade_net :: bool

definition all_off :: actuators where
  "all_off = \<lparr>pump = False, fan = False, mister = False, led_light = False, shade_net = False\<rparr>"

text \<open>
  The four readings of one cycle. The functions \<^verbatim>\<open>get_soil_moisture_reading\<close>,
  \<^verbatim>\<open>get_temperature_reading\<close>, \<^verbatim>\<open>get_humidity_reading\<close> and
  \<^verbatim>\<open>get_light_reading\<close> simulate the sensors with a random walk; the controller
  only uses the values they return, which are inputs here.
\<close>

record sensor_frame =
  current_moisture :: real
  current_temp :: real
  current_humidity :: real
  current_light :: real

text \<open>
  One call of \<^verbatim>\<open>log_action(sensor_data, action)\<close>: the two strings it is given.
  Python strings are lists of code points; the model keeps the code points below 256
  as \<^typ>\<open>char\<close>, which covers every character the program writes (the degree sign of
  the temperature lines is U+00B0).
\<close>

type_synonym log_call = "string \<times> string"

text \<open>
  The f-string number formats \<^verbatim>\<open>{x:.1f}\<close> and \<^verbatim>\<open>{x:.0f}\<close> belong to the
  Python runtime; the controller takes them as the parameter \<open>fmt\<close>, where
  \<open>fmt d x\<close> is the text of \<open>x\<close> with \<open>d\<close> decimals.
\<close>

type_synonym formatter = "nat \<Rightarrow> real \<Rightarrow> string"

definition on_off :: "bool \<Rightarrow> string" where
  "on_off b = (if b then ''ON'' else ''OFF'')"

definition degree_C :: string where
  "degree_C = [CHR 0xB0, CHR ''C'']"

section \<open>The four control categories\<close>

text \<open>A. Soil moisture control (irrigation pump), lines 142 to 149.\<close>

definition moisture_control :: "formatter \<Rightarrow> real \<Rightarrow> actuators \<Rightarrow> actuators \<times> log_call" where
  "moisture_control fmt m a =
     (if m < TARGET_MOISTURE_LOW \<and> pump a = False then
        (a\<lparr>pump := True\<rparr>,
         (''Soil_Moisture: '' @ fmt 1 m @ ''%'', ''Pump ON (Irrigation START)''))
      else if m > TARGET_MOISTURE_HIGH \<and> pump a = True then
        (a\<lparr>pump := False\<rparr>,
         (''Soil_Moisture: '' @ fmt 1 m @ ''%'', ''Pump OFF (Irrigation STOP)''))
      else
        (a, (''Soil_Moisture: '' @ fmt 1 m @ ''%'',
             ''Soil_Moisture: No Change ('' @ on_off (pump a) @ '')'')))"

text \<open>B. Temperature control (cooling fan), lines 153 to 160.\<close>

definition temperature_control :: "formatter \<Rightarrow> real \<Rightarrow> actuators \<Rightarrow> actuators \<times> log_call" where
  "temperature_control fmt t a =
     (if t > TARGET_TEMP_HIGH \<and> fan a = False then
        (a\<lparr>fan := True\<rparr>,
         (''Temperature: '' @ fmt 1 t @ degree_C, ''Fan ON (Cooling START)''))
      else if t < TARGET_TEMP_OPTIMAL \<and> fan a = True then
        (a\<lparr>fan := False\<rparr>,
         (''Temperature: '' @ fmt 1 t @ degree_C, ''Fan OFF (Cooling STOP)''))
      else
        (a, (''Temperature: '' @ fmt 1 t @ degree_C,
             ''Temperature: No Change ('' @ on_off (fan a) @ '')'')))"

text \<open>C. Humidity control (mister, and the fan shared with B), lines 165 to 180.\<close>

definition humidity_control :: "formatter \<Rightarrow> real \<Rightarrow> actuators \<Rightarrow> actuators \<times> log_call" where
  "humidity_control fmt h a =
     (if h < TARGET_HUMIDITY_LOW \<and> mister a = False then
        (a\<lparr>mister := True\<rparr>,
         (''Humidity: '' @ fmt 1 h @ ''%'', ''Mister ON (Humidify START)''))
      else if h > TARGET_HUMIDITY_HIGH \<and> mister a = True then
        (a\<lparr>mister := False\<rparr>,
         (''Humidity: '' @ fmt 1 h @ ''%'', ''Mister OFF (Humidify STOP)''))
      else if h > TARGET_HUMIDITY_HIGH \<and> fan a = False then
        (a\<lparr>fan := True\<rparr>,
         (''Humidity: '' @ fmt 1 h @ ''%'', ''Fan ON (Dehumidify START)''))
      else
        (a, (''Humidity: '' @ fmt 1 h @ ''%'',
             ''Humidity: No Change ('' @ on_off (mister a) @ '')'')))"

text \<open>D. Light intensity control (LEDs and shade net), lines 186 to 209.\<close>

definition light_control :: "formatter \<Rightarrow> real \<Rightarrow> actuators \<Rightarrow> actuators \<times> log_call" where
  "light_control fmt l a =
     (if l < TARGET_LIGHT_LOW \<and> led_light a = False then
        (a\<lparr>led_light := True\<rparr>,
         (''Light_Intensity: '' @ fmt 0 l @ '' Lux'', ''LEDs ON (Low Light Supplement)''))
      else if l > (TARGET_LIGHT_LOW + 500) \<and> led_light a = True then
        (a\<lparr>led_light := False\<rparr>,
         (''Light_Intensity: '' @ fmt 0 l @ '' Lux'', ''LEDs OFF (Light Optimal)''))
      else if l > TARGET_LIGHT_HIGH \<and> shade_net a = False then
        (a\<lparr>shade_net := True\<rparr>,
         (''Light_Intensity: '' @ fmt 0 l @ '' Lux'', ''Shade Net ON (High Light Protection)''))
      else if l < (TARGET_LIGHT_HIGH - 1000) \<and> shade_net a = True then
        (a\<lparr>shade_net := False\<rparr>,
         (''Light: '' @ fmt 0 l @ '' Lux'', ''Shade Net OFF (Light Reduced)''))
      else
        (a, (''Light_Intensity: '' @ fmt 0 l @ '' Lux'',
             ''Light: No Change (LED:'' @ on_off (led_light a) @ '', Shade:''
               @ on_off (shade_net a) @ '')'')))"

section \<open>The action logger\<close>

text \<open>
  \<^verbatim>\<open>log_action\<close> (lines 91 to 102) builds the line with an f-string and appends it,
  newline-terminated, to \<^verbatim>\<open>ActuatorLog_Local.txt\<close>. The clock, the number
  formats and the success of the write are the environment's: \<open>now i\<close> is the
  \<^verbatim>\<open>strftime("%Y-%m-%d %H:%M:%S")\<close> text at the \<open>i\<close>-th call, and
  \<open>write_ok i\<close> says whether that call's write succeeds (a failed write is caught,
  reported and leaves the file as it was).
\<close>

definition log_entry :: "string \<Rightarrow> string \<Rightarrow> string \<Rightarrow> string" where
  "log_entry timestamp sensor_data action =
     ''['' @ timestamp @ ''] '' @ sensor_data @ ''. Action: '' @ action"

definition newline :: char where
  "newline = CHR 0x0A"

record env =
  fmt :: formatter
  now :: "nat \<Rightarrow> string"
  write_ok :: "nat \<Rightarrow> bool"

record world =
  acts :: actuators
  log_file :: string
  calls :: nat

definition log_action :: "env \<Rightarrow> string \<Rightarrow> string \<Rightarrow> world \<Rightarrow> world" where
  "log_action e sensor_data action w =
     (let timestamp = now e (calls w);
          entry = log_entry timestamp sensor_data action
      in w\<lparr>log_file := (if write_ok e (calls w) then log_file w @ entry @ [newline]
                         else log_file w),
           calls := Suc (calls w)\<rparr>)"

section \<open>The main control loop\<close>

text \<open>
  One category: the branch taken switches at most one relay, then logs one line.
  A cycle runs the four categories in the fixed order A, B, C, D.
\<close>

definition run_category :: "env \<Rightarrow> (actuators \<Rightarrow> actuators \<times> log_call) \<Rightarrow> world \<Rightarrow> world" where
  "run_category e c w =
     (case c (acts w) of (a', (sensor_data, action)) \<Rightarrow>
        log_action e sensor_data action (w\<lparr>acts := a'\<rparr>))"

definition categories :: "env \<Rightarrow> sensor_frame \<Rightarrow> (actuators \<Rightarrow> actuators \<times> log_call) list" where
  "categories e fr =
     [moisture_control (fmt e) (current_moisture fr),
      temperature_control (fmt e) (current_temp fr),
      humidity_control (fmt e) (current_humidity fr),
      light_control (fmt e) (current_light fr)]"

fun run_categories :: "env \<Rightarrow> (actuators \<Rightarrow> actuators \<times> log_call) list \<Rightarrow> world \<Rightarrow> world" where
  "run_categories e [] w = w"
| "run_categories e (c # cs) w = run_categories e cs (run_category e c w)"

definition control_cycle :: "env \<Rightarrow> sensor_frame \<Rightarrow> world \<Rightarrow> world" where
  "control_cycle e fr w = run_categories e (categories e fr) w"

text \<open>
  The \<^verbatim>\<open>while True\<close> loop never ends by itself: it ends when something is raised
  inside the \<^verbatim>\<open>try\<close> block. What the outside world does to the loop is a list of
  events, one per cycle: either the cycle's readings, and the cycle completes, or an
  exception that arrives in a cycle after \<open>k\<close> of its categories have run
  (\<open>k = 0\<close>: while the sensors are read, \<open>k \<ge> 4\<close>: during the sleep). A list
  without an exception is a loop that is still running: the result is \<open>None\<close>.
  \<open>OtherException\<close> is any instance of \<^verbatim>\<open>Exception\<close>,
  \<open>OtherBaseException\<close> any other \<^verbatim>\<open>BaseException\<close> (such as
  \<^verbatim>\<open>SystemExit\<close>), which neither \<^verbatim>\<open>except\<close> clause catches.
\<close>

datatype signal = KeyboardInterrupt | OtherException | OtherBaseException

datatype cycle_event = Readings sensor_frame | Raised signal nat sensor_frame

datatype outcome = Returned | Propagated signal

fun control_loop :: "env \<Rightarrow> cycle_event list \<Rightarrow> world \<Rightarrow> (world \<times> signal) option" where
  "control_loop e [] w = None"
| "control_loop e (Readings fr # evs) w = control_loop e evs (control_cycle e fr w)"
| "control_loop e (Raised sig k fr # evs) w =
     Some (run_categories e (take k (categories e fr)) w, sig)"

text \<open>
  \<open>cleanup\<close> is the \<^verbatim>\<open>finally\<close> block (lines 222 to 229), \<open>handle\<close> the two
  \<^verbatim>\<open>except\<close> clauses (lines 215 to 219): a caught exception is printed and the
  function returns, an exception that is not caught propagates after the
  \<^verbatim>\<open>finally\<close> block. \<open>initialise\<close> is the code before the \<^verbatim>\<open>try\<close>
  (lines 112 to 129): all relays off, then one log line per sensor.
\<close>

definition cleanup :: "world \<Rightarrow> world" where
  "cleanup w =
     w\<lparr>acts := (acts w)\<lparr>pump := False, fan := False, mister := False,
                          led_light := False, shade_net := False\<rparr>\<rparr>"

definition handle :: "signal \<Rightarrow> outcome" where
  "handle sig =
     (if sig = KeyboardInterrupt then Returned
      else if sig = OtherException then Returned
      else Propagated sig)"

definition initialise :: "env \<Rightarrow> sensor_frame \<Rightarrow> string \<Rightarrow> world" where
  "initialise e fr log0 =
     (let w0 = \<lparr>acts = all_off, log_file = log0, calls = 0\<rparr>;
          w1 = log_action e (''Moisture: '' @ fmt e 1 (current_moisture fr) @ ''%'')
                 ''System Initialized: Pump OFF'' w0;
          w2 = log_action e (''Temp: '' @ fmt e 1 (current_temp fr) @ degree_C)
                 ''System Initialized: Fan OFF'' w1;
          w3 = log_action e (''Humidity: '' @ fmt e 1 (current_humidity fr) @ ''%'')
                 ''System Initialized: Mister OFF'' w2
      in log_action e (''Light: '' @ fmt e 0 (current_light fr) @ '' Lux'')
           ''System Initialized: Light OFF'' w3)"

definition main_control_loop ::
  "env \<Rightarrow> string \<Rightarrow> sensor_frame \<Rightarrow> cycle_event list \<Rightarrow> (world \<times> outcome) option" where
  "main_control_loop e log0 fr0 evs =
     (case control_loop e evs (initialise e fr0 log0) of
        None \<Rightarrow> None
      | Some (w, sig) \<Rightarrow> Some (cleanup w, handle sig))"

section \<open>Python string operations used by the parser\<close>

text \<open>
  The operations of \<^verbatim>\<open>str\<close> and \<^verbatim>\<open>list\<close> that
  \<^verbatim>\<open>cloud_sync_logic.py\<close> calls. An exception is a value of \<open>py_error\<close>,
  a computation that may raise has a result of type \<open>py_error + 'a\<close>.
\<close>

datatype py_error = IndexError | ValueError

definition bind_err :: "py_error + 'a \<Rightarrow> ('a \<Rightarrow> py_error + 'b) \<Rightarrow> py_error + 'b" where
  "bind_err m f = (case m of Inl e \<Rightarrow> Inl e | Inr x \<Rightarrow> f x)"

text \<open>\<^verbatim>\<open>xs[i]\<close> for a literal index \<open>i \<ge> 0\<close>: raises when out of range.\<close>

definition py_index :: "'a list \<Rightarrow> nat \<Rightarrow> py_error + 'a" where
  "py_index xs i = (if i < length xs then Inr (xs ! i) else Inl IndexError)"

text \<open>\<^verbatim>\<open>s[i:j]\<close> and \<^verbatim>\<open>s[i:]\<close> for literal bounds \<open>0 \<le> i\<close>: slices never raise.\<close>

definition py_slice :: "nat \<Rightarrow> nat \<Rightarrow> 'a list \<Rightarrow> 'a list" where
  "py_slice i j s = take (j - i) (drop i s)"

definition py_slice_from :: "nat \<Rightarrow> 'a list \<Rightarrow> 'a list" where
  "py_slice_from i s = drop i s"

text \<open>
  \<^verbatim>\<open>s.split(sep)\<close>: the pieces between the occurrences of \<open>sep\<close>, found from
  left to right without overlap; an empty separator raises \<^verbatim>\<open>ValueError\<close>.
\<close>

fun cons_first :: "'a \<Rightarrow> 'a list list \<Rightarrow> 'a list list" where
  "cons_first c [] = [[c]]"
| "cons_first c (p # ps) = (c # p) # ps"

function split_on :: "'a list \<Rightarrow> 'a list \<Rightarrow> 'a list list" where
  "split_on sep [] = [[]]"
| "split_on sep (c # cs) =
     (if sep \<noteq> [] \<and> prefix sep (c # cs)
      then [] # split_on sep (drop (length sep) (c # cs))
      else cons_first c (split_on sep cs))"
  by pat_completeness auto
termination
  by (relation "measure (\<lambda>(sep, s). length s)") (auto simp: neq_Nil_conv)

definition py_split :: "string \<Rightarrow> string \<Rightarrow> py_error + string list" where
  "py_split sep s = (if sep = [] then Inl ValueError else Inr (split_on sep s))"

text \<open>
  \<^verbatim>\<open>s.strip()\<close> removes leading and trailing whitespace: the characters for which
  \<^verbatim>\<open>str.isspace\<close> holds, which below 256 are U+0009 to U+000D, U+001C to U+0020,
  U+0085 and U+00A0.
\<close>

definition is_space :: "char \<Rightarrow> bool" where
  "is_space c = (of_char c \<in> {9, 10, 11, 12, 13, 28, 29, 30, 31, 32, 133, 160 :: nat})"

definition py_strip :: "string \<Rightarrow> string" where
  "py_strip s = rev (dropWhile is_space (rev (dropWhile is_space s)))"

text \<open>\<^verbatim>\<open>str(n)\<close> for an integer \<open>n \<ge> 0\<close>, as the f-string of the sync id prints it.\<close>

fun str_nat :: "nat \<Rightarrow> string" where
  "str_nat n =
     (if n < 10 then [char_of (48 + n)]
      else str_nat (n div 10) @ [char_of (48 + n mod 10)])"

section \<open>The log record parser\<close>

definition LOCAL_LOG_FILE :: string where
  "LOCAL_LOG_FILE = ''ActuatorLog_Local.txt''"

definition CLOUD_READY_CSV :: string where
  "CLOUD_READY_CSV = ''CloudSync_Ready.csv''"

definition CRITICAL_ACTIONS :: "string list" where
  "CRITICAL_ACTIONS = [''Pump ON'', ''Fan ON'', ''Mister ON'', ''Shade Net ON'', ''LEDs ON'']"

text \<open>
  The record is a Python dict, whose keys keep their insertion order: an association
  list. \<^verbatim>\<open>sub in s\<close> on strings is \<^const>\<open>sublist\<close>.
\<close>

type_synonym log_record = "(string \<times> string) list"

text \<open>
  The body of the \<^verbatim>\<open>try\<close> block of \<^verbatim>\<open>parse_log_entry\<close> (lines 17 to 45),
  statement by statement. \<open>rnd\<close> is the value that \<^verbatim>\<open>random.randint(1000, 9999)\<close>
  returns; it is drawn last, while the dict is built.
\<close>

definition parse_body :: "nat \<Rightarrow> string \<Rightarrow> py_error + log_record" where
  "parse_body rnd line =
     (let timestamp = py_slice 1 20 line in
      bind_err (py_split ''. Action: '' (py_slice_from 23 line)) (\<lambda>data_parts.
      bind_err (py_index data_parts 0) (\<lambda>data_part.
      bind_err (py_split '': '' data_part) (\<lambda>sensor_data_raw.
      bind_err (py_index sensor_data_raw 0) (\<lambda>sensor_type.
      bind_err (py_index sensor_data_raw 1) (\<lambda>sensor_value.
      let sensor_value_unit = py_strip sensor_value in
      bind_err (py_index data_parts 1) (\<lambda>action_part.
      let action_raw = py_strip action_part in
      bind_err (py_split ''('' action_raw) (\<lambda>action_split.
      bind_err (py_index action_split 0) (\<lambda>action_head.
      let action_name = py_strip action_head;
          is_critical = list_ex (\<lambda>crit_action. sublist crit_action action_name)
                          CRITICAL_ACTIONS
      in Inr [(''Timestamp'', timestamp),
              (''Sensor_Type'', sensor_type),
              (''Sensor_Reading'', sensor_value_unit),
              (''Actuator_Action'', action_name),
              (''Is_Critical'', if is_critical then ''Yes'' else ''No''),
              (''Cloud_Sync_ID'', ''CS-'' @ str_nat rnd)])))))))))"

text \<open>\<^verbatim>\<open>except Exception: return None\<close> turns every exception of the body into \<open>None\<close>.\<close>

definition parse_log_entry :: "nat \<Rightarrow> string \<Rightarrow> log_record option" where
  "parse_log_entry rnd line =
     (case parse_body rnd line of Inl e \<Rightarrow> None | Inr entry \<Rightarrow> Some entry)"

text \<open>\<^verbatim>\<open>d[key]\<close> on a record; the claims read fields of records that have them.\<close>

definition field :: "log_record \<Rightarrow> string \<Rightarrow> string option" where
  "field entry key = map_of entry key"

section \<open>The batch export\<close>

text \<open>
  The files of the working directory: a map from file names to their text. A name that
  is not in the domain is a file that does not exist.
\<close>

type_synonym filesystem = "string \<Rightarrow> string option"

text \<open>
  \<^verbatim>\<open>for line in f\<close> on a file opened in text mode: the lines of the text, each
  with its line end, where \<^verbatim>\<open>\n\<close>, \<^verbatim>\<open>\r\n\<close> and \<^verbatim>\<open>\r\<close> all end a line and are
  read as \<^verbatim>\<open>\n\<close>. \<open>acc\<close> is the current line so far, reversed.
\<close>

definition carriage_return :: char where
  "carriage_return = CHR 0x0D"

function text_lines_acc :: "string \<Rightarrow> string \<Rightarrow> string list" where
  "text_lines_acc acc [] = (if acc = [] then [] else [rev acc])"
| "text_lines_acc acc (c # cs) =
     (if c = newline then rev (newline # acc) # text_lines_acc [] cs
      else if c = carriage_return then
        rev (newline # acc) # text_lines_acc [] (if cs \<noteq> [] \<and> hd cs = newline then tl cs else cs)
      else text_lines_acc (c # acc) cs)"
  by pat_completeness auto
termination
  by (relation "measure (\<lambda>(acc, s). length s)") auto

definition text_lines :: "string \<Rightarrow> string list" where
  "text_lines content = text_lines_acc [] content"

text \<open>
  Step 1 of \<^verbatim>\<open>read_local_buffer_and_sync\<close> (lines 62 to 66): every line is stripped
  and parsed, and a record that is truthy (a non-empty dict) is appended. \<open>rand i\<close> is
  the \<open>i\<close>-th number the random generator yields, \<open>draws\<close> counts the numbers used.
\<close>

fun read_loop :: "(nat \<Rightarrow> nat) \<Rightarrow> nat \<Rightarrow> string list \<Rightarrow> log_record list \<Rightarrow> log_record list" where
  "read_loop rand draws [] processed_data = processed_data"
| "read_loop rand draws (line # rest) processed_data =
     (case parse_log_entry (rand draws) (py_strip line) of
        None \<Rightarrow> read_loop rand draws rest processed_data
      | Some structured_entry \<Rightarrow>
          if structured_entry \<noteq> []
          then read_loop rand (Suc draws) rest (processed_data @ [structured_entry])
          else read_loop rand (Suc draws) rest processed_data)"

text \<open>
  \<^verbatim>\<open>csv.DictWriter\<close> with its defaults: a row dict with a key outside
  \<open>fieldnames\<close> raises \<^verbatim>\<open>ValueError\<close>, a missing key is written as the empty
  string. The text of one row (quoting, delimiter, line terminator) is the csv module's:
  the parameter \<open>writerow\<close>. Rows are written one by one, so a row that raises leaves
  the rows before it in the file.
\<close>

definition dict_to_list :: "string list \<Rightarrow> log_record \<Rightarrow> py_error + string list" where
  "dict_to_list fieldnames rowdict =
     (if list_ex (\<lambda>k. k \<notin> set fieldnames) (map fst rowdict) then Inl ValueError
      else Inr (map (\<lambda>key. case map_of rowdict key of Some v \<Rightarrow> v | None \<Rightarrow> []) fieldnames))"

definition writeheader :: "(string list \<Rightarrow> string) \<Rightarrow> string list \<Rightarrow> string \<Rightarrow> string" where
  "writeheader writerow fieldnames csvfile = csvfile @ writerow fieldnames"

fun writerows ::
  "(string list \<Rightarrow> string) \<Rightarrow> string list \<Rightarrow> log_record list \<Rightarrow> string \<Rightarrow> string \<times> py_error option" where
  "writerows writerow fieldnames [] csvfile = (csvfile, None)"
| "writerows writerow fieldnames (rowdict # rest) csvfile =
     (case dict_to_list fieldnames rowdict of
        Inl e \<Rightarrow> (csvfile, Some e)
      | Inr row \<Rightarrow> writerows writerow fieldnames rest (csvfile @ writerow row))"

text \<open>
  \<^verbatim>\<open>read_local_buffer_and_sync\<close> (lines 50 to 99). It returns nothing; the model
  returns the files after the run and which of the paths through the function was taken.
  Opening \<^verbatim>\<open>CloudSync_Ready.csv\<close> with mode \<^verbatim>\<open>'w'\<close> creates or empties it.
  Step 4 is a comment and a \<^verbatim>\<open>print\<close>: \<^verbatim>\<open>os.remove\<close> is commented out.
\<close>

datatype sync_result = LogMissing | NothingToSync | Exported nat | ExportRaised py_error

definition read_local_buffer_and_sync ::
  "(string list \<Rightarrow> string) \<Rightarrow> (nat \<Rightarrow> nat) \<Rightarrow> filesystem \<Rightarrow> filesystem \<times> sync_result" where
  "read_local_buffer_and_sync writerow rand fs =
     (case fs LOCAL_LOG_FILE of
        None \<Rightarrow> (fs, LogMissing)
      | Some content \<Rightarrow>
          (let processed_data = read_loop rand 0 (text_lines content) [] in
           if processed_data = [] then (fs, NothingToSync)
           else
             (let successful_sync_count = length processed_data;
                  fieldnames = map fst (hd processed_data);
                  csvfile = writeheader writerow fieldnames []
              in case writerows writerow fieldnames processed_data csvfile of
                   (text, None) \<Rightarrow> (fs(CLOUD_READY_CSV \<mapsto> text), Exported successful_sync_count)
                 | (text, Some e) \<Rightarrow> (fs(CLOUD_READY_CSV \<mapsto> text), ExportRaised e))))"

section \<open>Notions used in the statements\<close>

text \<open>
  The action name that the parser derives from an action label, the text before the
  first \<open>(\<close> with surrounding whitespace removed, and the text of the criticality flag
  for an action name.
\<close>

definition action_name_of :: "string \<Rightarrow> string" where
  "action_name_of act = py_strip (takeWhile (\<lambda>c. c \<noteq> CHR ''('') act)"

definition is_critical_text :: "string \<Rightarrow> string" where
  "is_critical_text action_name =
     (if list_ex (\<lambda>crit_action. sublist crit_action action_name) CRITICAL_ACTIONS
      then ''Yes'' else ''No'')"

section \<open>Sample environment\<close>

text \<open>
  A concrete environment for evaluating the definitions on examples: a formatter that
  prints a fixed text, a clock that stands still, and writes that always succeed.
\<close>

definition fmt_const :: "string \<Rightarrow> formatter" where
  "fmt_const s d x = s"

definition fixed_clock :: "string \<Rightarrow> nat \<Rightarrow> string" where
  "fixed_clock ts i = ts"

definition always_ok :: "nat \<Rightarrow> bool" where
  "always_ok i = True"

definition sample_env :: env where
  "sample_env = \<lparr>fmt = fmt_const ''20.0'', now = fixed_clock ''2025-01-01 00:00:00'',
                  write_ok = always_ok\<rparr>"

definition hot_humid_frame :: sensor_frame where
  "hot_humid_frame = \<lparr>current_moisture = 35, current_temp = 33, current_humidity = 85,
                       current_light = 10000\<rparr>"

text \<open>
  For the batch export: a random generator that counts up from 1000, and a row writer
  that ends every field with a comma and every row with \<^verbatim>\<open>\r\n\<close>.
\<close>

definition sample_rand :: "nat \<Rightarrow> nat" where
  "sample_rand i = 1000 + i"

definition sample_writerow :: "string list \<Rightarrow> string" where
  "sample_writerow row = concat (map (\<lambda>f. f @ '','') row) @ [carriage_return, newline]"

text \<open>
  A log file with two lines of the logger around a line that is not one, and a log file
  without any line of the logger beside an export of an earlier run.
\<close>

definition sample_line_1 :: string where
  "sample_line_1 = ''[2025-01-01 00:00:00] Moisture: 35.0%. Action: Pump ON (Irrigation START)''"

definition sample_line_2 :: string where
  "sample_line_2 = ''[2025-01-01 00:00:05] Humidity: 70.0%. Action: Humidity: No Change (OFF)''"

definition untimed_line :: string where
  "untimed_line = ''this is not a timestamp!!Temp: 1. Action: Fan ON''"

definition garbage_line :: string where
  "garbage_line = ''garbage''"

definition sample_log :: string where
  "sample_log = sample_line_1 @ [newline] @ garbage_line @ [newline] @ sample_line_2 @ [newline]"

definition sample_fs :: filesystem where
  "sample_fs = Map.empty(LOCAL_LOG_FILE \<mapsto> sample_log)"

definition garbage_log :: string where
  "garbage_log = garbage_line @ [newline] @ [newline] @ ''too short''"

definition garbage_fs :: filesystem where
  "garbage_fs = Map.empty(LOCAL_LOG_FILE \<mapsto> garbage_log, CLOUD_READY_CSV \<mapsto> ''earlier export'')"

section \<open>Properties of the controller\<close>

lemmas thresholds =
  TARGET_MOISTURE_LOW_def TARGET_MOISTURE_HIGH_def TARGET_TEMP_HIGH_def
  TARGET_TEMP_OPTIMAL_def TARGET_HUMIDITY_HIGH_def TARGET_HUMIDITY_LOW_def
  TARGET_LIGHT_HIGH_def TARGET_LIGHT_LOW_def

subsection \<open>Which relay each category can switch\<close>

lemma acts_log_action [simp]: "acts (log_action e sd ac w) = acts w"
  by (simp add: log_action_def Let_def)

lemma acts_run_category: "acts (run_category e c w) = fst (c (acts w))"
  by (simp add: run_category_def split: prod.splits)

lemma pump_temperature [simp]: "pump (fst (temperature_control f t a)) = pump a"
  by (simp add: temperature_control_def)

lemma pump_humidity [simp]: "pump (fst (humidity_control f h a)) = pump a"
  by (simp add: humidity_control_def)

lemma pump_light [simp]: "pump (fst (light_control f l a)) = pump a"
  by (simp add: light_control_def)

lemma led_shade_moisture [simp]:
  "led_light (fst (moisture_control f m a)) = led_light a"
  "shade_net (fst (moisture_control f m a)) = shade_net a"
  by (simp_all add: moisture_control_def)

lemma led_shade_temperature [simp]:
  "led_light (fst (temperature_control f t a)) = led_light a"
  "shade_net (fst (temperature_control f t a)) = shade_net a"
  by (simp_all add: temperature_control_def)

lemma led_shade_humidity [simp]:
  "led_light (fst (humidity_control f h a)) = led_light a"
  "shade_net (fst (humidity_control f h a)) = shade_net a"
  by (simp_all add: humidity_control_def)

text \<open>The relays after a full cycle: the four categories, each on the result of the one before.\<close>

lemma acts_control_cycle:
  "acts (control_cycle e fr w) =
     fst (light_control (fmt e) (current_light fr)
       (fst (humidity_control (fmt e) (current_humidity fr)
         (fst (temperature_control (fmt e) (current_temp fr)
           (fst (moisture_control (fmt e) (current_moisture fr) (acts w))))))))"
  by (simp add: control_cycle_def categories_def acts_run_category)

subsection \<open>Light category with low light and the LEDs already on\<close>

text \<open>
  Claim C3 says that with a light reading below \<open>TARGET_LIGHT_LOW\<close> and the LEDs on,
  no branch of the light category fires whatever the state of the shade net. It fails
  when the shade net is deployed: at 10000 lux the fourth branch
  (\<open>light < TARGET_LIGHT_HIGH - 1000\<close> and shade on) retracts the net in that cycle.
\<close>

theorem light_low_led_on_counterexample:
  "current_light \<lparr>current_moisture = 50, current_temp = 30, current_humidity = 70,
                  current_light = 10000\<rparr> < TARGET_LIGHT_LOW
   \<and> led_light \<lparr>pump = False, fan = False, mister = False, led_light = True,
                 shade_net = True\<rparr>
   \<and> shade_net \<lparr>pump = False, fan = False, mister = False, led_light = True,
                 shade_net = True\<rparr>
   \<and> \<not> shade_net (acts (control_cycle sample_env
          \<lparr>current_moisture = 50, current_temp = 30, current_humidity = 70,
           current_light = 10000\<rparr>
          \<lparr>acts = \<lparr>pump = False, fan = False, mister = False, led_light = True,
                   shade_net = True\<rparr>,
           log_file = [], calls = 0\<rparr>))
   \<and> snd (snd (light_control (fmt sample_env) 10000
          \<lparr>pump = False, fan = False, mister = False, led_light = True,
           shade_net = True\<rparr>)) = ''Shade Net OFF (Light Reduced)''"
  by (simp add: acts_control_cycle moisture_control_def temperature_control_def
        humidity_control_def light_control_def thresholds)

text \<open>
  Claim C3 as amended: in a cycle where the light reading is below \<open>TARGET_LIGHT_LOW\<close>
  (15000) and the LEDs are on, the LEDs stay on. If the shade net is off, no branch of
  the light category fires: no relay changes and the category logs no-change. If the
  shade net is on, the retract branch fires: the shade net goes off and nothing else
  changes. So after such a cycle the LEDs are on and the shade net is off.
\<close>

theorem light_low_led_on:
  "(l < TARGET_LIGHT_LOW \<and> led_light a \<longrightarrow>
     TARGET_LIGHT_LOW = 15000
     \<and> led_light (fst (light_control f l a)) = led_light a
     \<and> (\<not> shade_net a \<longrightarrow>
          fst (light_control f l a) = a
          \<and> snd (snd (light_control f l a)) = ''Light: No Change (LED:ON, Shade:OFF)'')
     \<and> (shade_net a \<longrightarrow>
          fst (light_control f l a) = a\<lparr>shade_net := False\<rparr>
          \<and> snd (snd (light_control f l a)) = ''Shade Net OFF (Light Reduced)''))
   \<and> (current_light fr < TARGET_LIGHT_LOW \<and> led_light (acts w) \<longrightarrow>
        led_light (acts (control_cycle e fr w))
        \<and> \<not> shade_net (acts (control_cycle e fr w)))"
  by (simp add: light_control_def thresholds on_off_def acts_control_cycle)

theorem light_low_led_on_witness:
  "(10000::real) < TARGET_LIGHT_LOW
   \<and> fst (light_control (fmt_const ''10000'') 10000
        \<lparr>pump = False, fan = False, mister = False, led_light = True, shade_net = False\<rparr>)
     = \<lparr>pump = False, fan = False, mister = False, led_light = True, shade_net = False\<rparr>
   \<and> fst (light_control (fmt_const ''10000'') 10000
        \<lparr>pump = False, fan = False, mister = False, led_light = True, shade_net = True\<rparr>)
     = \<lparr>pump = False, fan = False, mister = False, led_light = True, shade_net = False\<rparr>
   \<and> led_light (acts (control_cycle sample_env hot_humid_frame
        \<lparr>acts = \<lparr>pump = False, fan = False, mister = False, led_light = True,
                 shade_net = True\<rparr>, log_file = [], calls = 0\<rparr>))"
proof -
  have low: "(10000::real) < TARGET_LIGHT_LOW"
    by (simp add: thresholds)
  have "fst (light_control (fmt_const ''10000'') 10000
        \<lparr>pump = False, fan = False, mister = False, led_light = True, shade_net = False\<rparr>)
     = \<lparr>pump = False, fan = False, mister = False, led_light = True, shade_net = False\<rparr>"
    using light_low_led_on [of 10000
      "\<lparr>pump = False, fan = False, mister = False, led_light = True, shade_net = False\<rparr>"
      "fmt_const ''10000''"] low
    by simp
  moreover have "fst (light_control (fmt_const ''10000'') 10000
        \<lparr>pump = False, fan = False, mister = False, led_light = True, shade_net = True\<rparr>)
     = \<lparr>pump = False, fan = False, mister = False, led_light = True, shade_net = False\<rparr>"
    using light_low_led_on [of 10000
      "\<lparr>pump = False, fan = False, mister = False, led_light = True, shade_net = True\<rparr>"
      "fmt_const ''10000''"] low
    by simp
  moreover have "led_light (acts (control_cycle sample_env hot_humid_frame
        \<lparr>acts = \<lparr>pump = False, fan = False, mister = False, led_light = True,
                 shade_net = True\<rparr>, log_file = [], calls = 0\<rparr>))"
    using light_low_led_on [of _ _ _ hot_humid_frame
      "\<lparr>acts = \<lparr>pump = False, fan = False, mister = False, led_light = True,
               shade_net = True\<rparr>, log_file = [], calls = 0\<rparr>" sample_env]
    by (simp add: hot_humid_frame_def thresholds)
  ultimately show ?thesis using low by simp
qed

subsection \<open>Moisture category\<close>

text \<open>
  Claim C4: with a moisture reading below \<open>TARGET_MOISTURE_LOW\<close> (40) and the pump
  off, the moisture category switches the pump on and leaves every other relay as it
  was; with a reading above \<open>TARGET_MOISTURE_HIGH\<close> (65) and the pump on, it switches
  the pump off; for a reading in the closed interval from 40 to 65 it changes nothing.
  In a full cycle no other category touches the pump, so the pump after the cycle is
  the pump after the moisture category.
\<close>

theorem moisture_pump_rule:
  "TARGET_MOISTURE_LOW = 40 \<and> TARGET_MOISTURE_HIGH = 65
   \<and> (m < TARGET_MOISTURE_LOW \<and> \<not> pump a \<longrightarrow>
        fst (moisture_control f m a) = a\<lparr>pump := True\<rparr>)
   \<and> (m > TARGET_MOISTURE_HIGH \<and> pump a \<longrightarrow>
        fst (moisture_control f m a) = a\<lparr>pump := False\<rparr>)
   \<and> (TARGET_MOISTURE_LOW \<le> m \<and> m \<le> TARGET_MOISTURE_HIGH \<longrightarrow>
        fst (moisture_control f m a) = a)
   \<and> pump (acts (control_cycle e fr w)) =
        pump (fst (moisture_control (fmt e) (current_moisture fr) (acts w)))"
  by (simp add: moisture_control_def thresholds acts_control_cycle)

theorem moisture_pump_rule_witness:
  "fst (moisture_control (fmt_const ''35.0'') 35 all_off) = all_off\<lparr>pump := True\<rparr>
   \<and> fst (moisture_control (fmt_const ''70.0'') 70 (all_off\<lparr>pump := True\<rparr>)) = all_off
   \<and> fst (moisture_control (fmt_const ''40.0'') 40 (all_off\<lparr>pump := True\<rparr>))
       = all_off\<lparr>pump := True\<rparr>
   \<and> fst (moisture_control (fmt_const ''65.0'') 65 all_off) = all_off"
proof -
  have lo: "TARGET_MOISTURE_LOW = 40" and hi: "TARGET_MOISTURE_HIGH = 65"
    by (simp_all add: thresholds)
  have "fst (moisture_control (fmt_const ''35.0'') 35 all_off) = all_off\<lparr>pump := True\<rparr>"
    using moisture_pump_rule [of 35 all_off "fmt_const ''35.0''"] lo
    by (simp add: all_off_def)
  moreover have "fst (moisture_control (fmt_const ''70.0'') 70 (all_off\<lparr>pump := True\<rparr>)) = all_off"
    using moisture_pump_rule [of 70 "all_off\<lparr>pump := True\<rparr>" "fmt_const ''70.0''"] hi
    by (simp add: all_off_def)
  moreover have "fst (moisture_control (fmt_const ''40.0'') 40 (all_off\<lparr>pump := True\<rparr>))
       = all_off\<lparr>pump := True\<rparr>"
    using moisture_pump_rule [of 40 "all_off\<lparr>pump := True\<rparr>" "fmt_const ''40.0''"] lo hi
    by simp
  moreover have "fst (moisture_control (fmt_const ''65.0'') 65 all_off) = all_off"
    using moisture_pump_rule [of 65 all_off "fmt_const ''65.0''"] lo hi
    by simp
  ultimately show ?thesis by simp
qed

subsection \<open>Humidity category\<close>

text \<open>
  Claim C5: the humidity category is an ordered first-match chain. Humidity below
  \<open>TARGET_HUMIDITY_LOW\<close> (60) with the mister off: only the mister goes on. Otherwise,
  humidity above \<open>TARGET_HUMIDITY_HIGH\<close> (80) with the mister on: only the mister goes
  off, and the fan is not touched. Otherwise, humidity above 80 with the fan off: the
  fan goes on (dehumidify). Otherwise no relay changes.
\<close>

theorem humidity_chain:
  "TARGET_HUMIDITY_LOW = 60 \<and> TARGET_HUMIDITY_HIGH = 80
   \<and> (h < TARGET_HUMIDITY_LOW \<and> \<not> mister a \<longrightarrow>
        fst (humidity_control f h a) = a\<lparr>mister := True\<rparr>
        \<and> snd (snd (humidity_control f h a)) = ''Mister ON (Humidify START)'')
   \<and> (\<not> (h < TARGET_HUMIDITY_LOW \<and> \<not> mister a)
        \<and> h > TARGET_HUMIDITY_HIGH \<and> mister a \<longrightarrow>
        fst (humidity_control f h a) = a\<lparr>mister := False\<rparr>
        \<and> snd (snd (humidity_control f h a)) = ''Mister OFF (Humidify STOP)'')
   \<and> (\<not> (h < TARGET_HUMIDITY_LOW \<and> \<not> mister a)
        \<and> \<not> (h > TARGET_HUMIDITY_HIGH \<and> mister a)
        \<and> h > TARGET_HUMIDITY_HIGH \<and> \<not> fan a \<longrightarrow>
        fst (humidity_control f h a) = a\<lparr>fan := True\<rparr>
        \<and> snd (snd (humidity_control f h a)) = ''Fan ON (Dehumidify START)'')
   \<and> (\<not> (h < TARGET_HUMIDITY_LOW \<and> \<not> mister a)
        \<and> \<not> (h > TARGET_HUMIDITY_HIGH \<and> mister a)
        \<and> \<not> (h > TARGET_HUMIDITY_HIGH \<and> \<not> fan a) \<longrightarrow>
        fst (humidity_control f h a) = a
        \<and> snd (snd (humidity_control f h a)) =
            ''Humidity: No Change ('' @ on_off (mister a) @ '')'')"
  by (simp add: humidity_control_def thresholds)

theorem humidity_chain_witness:
  "fst (humidity_control (fmt_const ''55.0'') 55 all_off) = all_off\<lparr>mister := True\<rparr>
   \<and> fst (humidity_control (fmt_const ''85.0'') 85 (all_off\<lparr>mister := True\<rparr>)) = all_off
   \<and> fst (humidity_control (fmt_const ''85.0'') 85 all_off) = all_off\<lparr>fan := True\<rparr>
   \<and> fst (humidity_control (fmt_const ''70.0'') 70 all_off) = all_off"
proof -
  have lo: "TARGET_HUMIDITY_LOW = 60" and hi: "TARGET_HUMIDITY_HIGH = 80"
    by (simp_all add: thresholds)
  have "fst (humidity_control (fmt_const ''55.0'') 55 all_off) = all_off\<lparr>mister := True\<rparr>"
    using humidity_chain [of 55 all_off "fmt_const ''55.0''"] lo
    by (simp add: all_off_def)
  moreover have "fst (humidity_control (fmt_const ''85.0'') 85 (all_off\<lparr>mister := True\<rparr>)) = all_off"
    using humidity_chain [of 85 "all_off\<lparr>mister := True\<rparr>" "fmt_const ''85.0''"] lo hi
    by (simp add: all_off_def)
  moreover have "fst (humidity_control (fmt_const ''85.0'') 85 all_off) = all_off\<lparr>fan := True\<rparr>"
    using humidity_chain [of 85 all_off "fmt_const ''85.0''"] lo hi
    by (simp add: all_off_def)
  moreover have "fst (humidity_control (fmt_const ''70.0'') 70 all_off) = all_off"
    using humidity_chain [of 70 all_off "fmt_const ''70.0''"] lo hi
    by (simp add: all_off_def)
  ultimately show ?thesis by simp
qed

subsection \<open>Shutdown\<close>

lemma acts_cleanup: "acts (cleanup w) = all_off"
  by (simp add: cleanup_def all_off_def)

lemma control_loop_raised:
  "control_loop e (map Readings frs @ Raised sig k fr # rest) w =
     Some (run_categories e (take k (categories e fr))
             (foldl (\<lambda>w fr. control_cycle e fr w) w frs), sig)"
  by (induction frs arbitrary: w) simp_all

text \<open>
  Claim C8: whenever the control loop ends, by a keyboard interrupt or by any other
  exception, raised after any number of cycles and after any number \<open>k\<close> of the
  categories of the current cycle, all five relays are off when
  \<^verbatim>\<open>main_control_loop\<close> is left, and a raised exception does end the loop. The
  \<^verbatim>\<open>finally\<close> block runs on every way out, so an exception that propagates does
  so after the shutdown. A keyboard interrupt and an \<^verbatim>\<open>Exception\<close> are caught and
  reported, and the function returns; any other \<^verbatim>\<open>BaseException\<close> propagates.
\<close>

theorem shutdown_all_off:
  "(main_control_loop e log0 fr0 evs = Some (w, out) \<longrightarrow> acts w = all_off)
   \<and> (\<exists>w'. main_control_loop e log0 fr0 (map Readings frs @ Raised sig k fr # rest)
              = Some (w', handle sig) \<and> acts w' = all_off)
   \<and> handle KeyboardInterrupt = Returned \<and> handle OtherException = Returned
   \<and> handle OtherBaseException = Propagated OtherBaseException"
  by (auto simp: main_control_loop_def acts_cleanup control_loop_raised handle_def split: option.splits)

theorem shutdown_all_off_witness:
  "\<exists>w. main_control_loop sample_env [] hot_humid_frame
          [Readings hot_humid_frame, Raised OtherException 2 hot_humid_frame]
        = Some (w, Returned) \<and> acts w = all_off"
proof -
  obtain w' where run: "main_control_loop sample_env [] hot_humid_frame
       (map Readings [hot_humid_frame] @ Raised OtherException 2 hot_humid_frame # [])
       = Some (w', handle OtherException)"
    using shutdown_all_off [of sample_env "[]" hot_humid_frame _ _ _
        "[hot_humid_frame]" OtherException 2 hot_humid_frame "[]"]
    by blast
  have "acts w' = all_off"
    using shutdown_all_off [of sample_env "[]" hot_humid_frame
        "[Readings hot_humid_frame, Raised OtherException 2 hot_humid_frame]"
        w' "handle OtherException"] run
    by simp
  then show ?thesis
    using run by (simp add: handle_def)
qed

section \<open>Properties of the string operations\<close>

subsection \<open>Splitting\<close>

lemma split_on_not_Nil [simp]: "split_on sep s \<noteq> []"
  by (induction sep s rule: split_on.induct) (auto simp: neq_Nil_conv elim: cons_first.elims)

lemma cons_first_hd: "ps \<noteq> [] \<Longrightarrow> cons_first c ps = (c # hd ps) # tl ps"
  by (cases ps) simp_all

lemma split_on_no_sep: "\<not> sublist sep s \<Longrightarrow> split_on sep s = [s]"
proof (induction s)
  case Nil
  then show ?case by simp
next
  case (Cons c cs)
  from Cons.prems have "\<not> prefix sep (c # cs)" and "\<not> sublist sep cs"
    by (auto simp: sublist_Cons_right)
  with Cons.IH show ?case by simp
qed

lemma prefix_append_short:
  "prefix xs (ys @ zs) \<Longrightarrow> length xs \<le> length ys \<Longrightarrow> prefix xs ys"
  by (auto simp: prefix_append)

lemma append_butlast_last_cons: "sep \<noteq> [] \<Longrightarrow> butlast sep @ last sep # b = sep @ b"
  by (induction sep) auto

lemma split_on_first:
  assumes "sep \<noteq> []" and "\<not> sublist sep (a @ butlast sep)"
  shows "split_on sep (a @ sep @ b) = a # split_on sep b"
  using assms(2)
proof (induction a)
  case Nil
  from assms(1) obtain c cs where sep: "sep = c # cs"
    by (cases sep) auto
  have "split_on sep (c # cs @ b) = [] # split_on sep (drop (length sep) (c # cs @ b))"
    using sep by (subst split_on.simps) simp
  then show ?case
    using sep by simp
next
  case (Cons x a)
  have no_here: "\<not> prefix sep ((x # a) @ sep @ b)"
  proof
    assume p: "prefix sep ((x # a) @ sep @ b)"
    have eq: "(x # a) @ sep @ b = ((x # a) @ butlast sep) @ (last sep # b)"
      by (simp add: append_butlast_last_cons [OF assms(1)])
    have "prefix sep (((x # a) @ butlast sep) @ (last sep # b))"
      using p unfolding eq .
    moreover have "length sep \<le> length ((x # a) @ butlast sep)"
      by simp
    ultimately have "prefix sep ((x # a) @ butlast sep)"
      by (rule prefix_append_short)
    then show False
      using Cons.prems by (meson prefix_imp_sublist)
  qed
  from Cons.prems have "\<not> sublist sep (a @ butlast sep)"
    by (simp add: sublist_Cons_right)
  with Cons.IH have "split_on sep (a @ sep @ b) = a # split_on sep b" .
  with no_here show ?case by simp
qed

lemma no_border_prefix:
  assumes "hd sep \<notin> set (tl sep)" and "prefix sep (y @ butlast sep)" and "y \<noteq> []"
  shows "prefix sep y"
proof -
  from assms(2) consider "prefix sep y"
    | us where "sep = y @ us" and "prefix us (butlast sep)"
    by (auto simp: prefix_append)
  then show ?thesis
  proof cases
    case 1
    then show ?thesis .
  next
    case 2
    show ?thesis
    proof (cases "us = []")
      case True
      with 2 show ?thesis by simp
    next
      case False
      with 2(2) obtain r where bl: "butlast sep = us @ r"
        by (auto simp: prefix_def)
      from False bl have "hd us = hd (butlast sep)"
        by simp
      also from False bl have "\<dots> = hd sep"
        by (metis append_is_Nil_conv hd_append2 append_butlast_last_id butlast.simps(1))
      finally have "hd sep \<in> set us"
        using False by (metis hd_in_set)
      moreover from 2(1) assms(3) have "set us \<subseteq> set (tl sep)"
        by (cases y) auto
      ultimately show ?thesis
        using assms(1) by blast
    qed
  qed
qed

lemma no_border_sublist:
  assumes "hd sep \<notin> set (tl sep)" and "sublist sep (x @ butlast sep)"
  shows "sublist sep x"
  using assms(2)
proof (induction x)
  case Nil
  then have "sublist sep (butlast sep)"
    by simp
  then have "length sep \<le> length (butlast sep)"
    by (rule sublist_length_le)
  then have "length sep = 0"
    using length_butlast [of sep] by arith
  then show ?case by simp
next
  case (Cons c x)
  from Cons.prems have "prefix sep ((c # x) @ butlast sep) \<or> sublist sep (x @ butlast sep)"
    by (simp add: sublist_Cons_right)
  then show ?case
  proof
    assume "prefix sep ((c # x) @ butlast sep)"
    with assms(1) have "prefix sep (c # x)"
      by (rule no_border_prefix) simp
    then show ?thesis
      by (rule prefix_imp_sublist)
  next
    assume "sublist sep (x @ butlast sep)"
    with Cons.IH have "sublist sep x" .
    then show ?thesis
      by (simp add: sublist_Cons_right)
  qed
qed

lemma hd_split_on_single: "hd (split_on [c] s) = takeWhile (\<lambda>x. x \<noteq> c) s"
  by (induction s) (auto simp: cons_first_hd)

subsection \<open>Stripping\<close>

lemma strip_all_space: "\<forall>c\<in>set w. is_space c \<Longrightarrow> py_strip (w @ s) = py_strip s"
  by (simp add: py_strip_def dropWhile_append)

lemma strip_trailing_space:
  assumes "\<forall>c\<in>set w. is_space c"
  shows "py_strip (s @ w) = py_strip s"
proof (cases "\<forall>c\<in>set s. is_space c")
  case True
  with assms have a: "dropWhile is_space (s @ w) = []" and b: "dropWhile is_space s = []"
    by auto
  show ?thesis
    unfolding py_strip_def a b by simp
next
  case False
  then obtain x where "x \<in> set s" and "\<not> is_space x"
    by blast
  then have "dropWhile is_space (s @ w) = dropWhile is_space s @ w"
    by (rule dropWhile_append1)
  moreover have "dropWhile is_space (rev w @ rev (dropWhile is_space s))
      = dropWhile is_space (rev (dropWhile is_space s))"
    using assms by (simp add: dropWhile_append)
  ultimately show ?thesis
    by (simp add: py_strip_def)
qed

lemma py_strip_decompose:
  obtains w1 w2 where "s = w1 @ py_strip s @ w2"
    and "\<forall>c\<in>set w1. is_space c" and "\<forall>c\<in>set w2. is_space c"
proof
  let ?d = "dropWhile is_space s"
  have "py_strip s @ rev (takeWhile is_space (rev ?d))
      = rev (takeWhile is_space (rev ?d) @ dropWhile is_space (rev ?d))"
    by (simp only: py_strip_def rev_append)
  also have "\<dots> = ?d"
    by (simp only: takeWhile_dropWhile_id rev_rev_ident)
  finally have "takeWhile is_space s @ py_strip s @ rev (takeWhile is_space (rev ?d))
      = takeWhile is_space s @ ?d"
    by simp
  then show "s = takeWhile is_space s @ py_strip s @ rev (takeWhile is_space (rev ?d))"
    by (simp only: takeWhile_dropWhile_id)
  show "\<forall>c\<in>set (takeWhile is_space s). is_space c"
    by (auto dest: set_takeWhileD)
  show "\<forall>c\<in>set (rev (takeWhile is_space (rev ?d))). is_space c"
    by (auto dest: set_takeWhileD)
qed

lemma strip_takeWhile:
  assumes P: "\<And>c. is_space c \<Longrightarrow> P c"
  shows "py_strip (takeWhile P (py_strip s)) = py_strip (takeWhile P s)"
proof -
  obtain w1 w2 where s: "s = w1 @ py_strip s @ w2"
    and w1: "\<forall>c\<in>set w1. is_space c" and w2: "\<forall>c\<in>set w2. is_space c"
    by (rule py_strip_decompose)
  let ?m = "py_strip s"
  have "takeWhile P s = takeWhile P (w1 @ ?m @ w2)"
    using s by simp
  also have "\<dots> = w1 @ takeWhile P (?m @ w2)"
    using w1 P by (simp add: takeWhile_append2)
  finally have "py_strip (takeWhile P s) = py_strip (takeWhile P (?m @ w2))"
    using w1 by (simp add: strip_all_space)
  also have "\<dots> = py_strip (takeWhile P ?m)"
  proof (cases "\<forall>c\<in>set ?m. P c")
    case True
    moreover have "\<forall>c\<in>set w2. P c"
      using w2 P by blast
    ultimately have tw: "takeWhile P (?m @ w2) = ?m @ w2" and tm: "takeWhile P ?m = ?m"
      by simp_all
    show ?thesis
      unfolding tw tm using w2 by (rule strip_trailing_space)
  next
    case False
    then obtain x where "x \<in> set ?m" and "\<not> P x"
      by blast
    then have "takeWhile P (?m @ w2) = takeWhile P ?m"
      by (rule takeWhile_append1)
    then show ?thesis
      by simp
  qed
  finally show ?thesis by simp
qed

section \<open>Properties of the parser\<close>

subsection \<open>What the body of the parser computes\<close>

lemmas parse_defs =
  parse_log_entry_def parse_body_def py_split_def py_slice_def py_slice_from_def
  bind_err_def py_index_def

lemma py_index_0: "xs \<noteq> [] \<Longrightarrow> py_index xs 0 = Inr (hd xs)"
  by (cases xs) (simp_all add: py_index_def)

lemma space_not_paren: "is_space c \<Longrightarrow> c \<noteq> CHR ''(''"
  by (auto simp: is_space_def)

lemma action_name_eq:
  "py_strip (hd (split_on ''('' (py_strip act))) = py_strip (takeWhile (\<lambda>c. c \<noteq> CHR ''('') act)"
  by (simp add: hd_split_on_single strip_takeWhile space_not_paren)

lemma str_nat_1234: "str_nat 1234 = ''1234''"
  by code_simp

lemma str_nat_samples: "str_nat 1000 = ''1000''" "str_nat 1001 = ''1001''"
  by code_simp+

lemma py_index_Cons [simp]:
  "py_index (x # xs) 0 = Inr x"
  "py_index (x # y # ys) (Suc 0) = Inr y"
  "py_index [x] (Suc 0) = Inl IndexError"
  by (simp_all add: py_index_def)

lemma parse_body_parts:
  assumes "split_on ''. Action: '' (drop 23 line) = data # action # parts"
    and "split_on '': '' data = stype # svalue # parts'"
  shows "parse_body rnd line =
      Inr [(''Timestamp'', take 19 (drop 1 line)),
           (''Sensor_Type'', stype),
           (''Sensor_Reading'', py_strip svalue),
           (''Actuator_Action'', action_name_of action),
           (''Is_Critical'', is_critical_text (action_name_of action)),
           (''Cloud_Sync_ID'', ''CS-'' @ str_nat rnd)]"
  unfolding parse_body_def py_split_def py_slice_from_def py_slice_def
  by (simp add: assms bind_err_def py_index_0 action_name_eq action_name_of_def
        is_critical_text_def del: str_nat.simps)

lemma parse_body_eq:
  "parse_body rnd line =
     (case split_on ''. Action: '' (drop 23 line) of
        data # action # parts \<Rightarrow>
          (case split_on '': '' data of
             stype # svalue # parts' \<Rightarrow>
               Inr [(''Timestamp'', take 19 (drop 1 line)),
                    (''Sensor_Type'', stype),
                    (''Sensor_Reading'', py_strip svalue),
                    (''Actuator_Action'', action_name_of action),
                    (''Is_Critical'', is_critical_text (action_name_of action)),
                    (''Cloud_Sync_ID'', ''CS-'' @ str_nat rnd)]
           | _ \<Rightarrow> Inl IndexError)
      | _ \<Rightarrow> Inl IndexError)"
proof (cases "split_on ''. Action: '' (drop 23 line)")
  case Nil
  then show ?thesis by simp
next
  case outer: (Cons data ps)
  show ?thesis
  proof (cases "split_on '': '' data")
    case Nil
    then show ?thesis by simp
  next
    case inner: (Cons stype vs)
    show ?thesis
    proof (cases vs)
      case Nil
      with outer inner show ?thesis
        unfolding parse_body_def py_split_def py_slice_from_def py_slice_def
        by (simp add: bind_err_def split: list.splits)
    next
      case vs: (Cons svalue parts')
      show ?thesis
      proof (cases ps)
        case Nil
        with outer inner vs show ?thesis
          unfolding parse_body_def py_split_def py_slice_from_def py_slice_def
          by (simp add: bind_err_def)
      next
        case (Cons action parts)
        with outer inner vs show ?thesis
          by (simp add: parse_body_parts del: str_nat.simps)
      qed
    qed
  qed
qed

subsection \<open>The example line of the specification\<close>

text \<open>
  Claim C2 expects the line
  \<^verbatim>\<open>[2025-01-01 00:00:00] Moisture: 35.0%. Action: Pump ON (Irrigation START)\<close>
  to parse with \<^verbatim>\<open>Sensor_Type\<close> equal to \<^verbatim>\<open>Moisture\<close>. The bracketed timestamp
  and the space after it are 22 characters, but the parser cuts the line at offset 23
  (\<^verbatim>\<open>line[23:]\<close>), so the first character of the sensor label is lost: the code
  returns \<^verbatim>\<open>oisture\<close>. The other four fields are as the claim says.
\<close>

theorem parse_example_line:
  "parse_log_entry rnd
     ''[2025-01-01 00:00:00] Moisture: 35.0%. Action: Pump ON (Irrigation START)''
   = Some [(''Timestamp'', ''2025-01-01 00:00:00''),
           (''Sensor_Type'', ''oisture''),
           (''Sensor_Reading'', ''35.0%''),
           (''Actuator_Action'', ''Pump ON''),
           (''Is_Critical'', ''Yes''),
           (''Cloud_Sync_ID'', ''CS-'' @ str_nat rnd)]"
  by (simp add: parse_defs py_strip_def is_space_def CRITICAL_ACTIONS_def sublist_code
        del: str_nat.simps)

subsection \<open>Round trip of the log format\<close>

text \<open>
  What the parser returns for a line of the logger: for a timestamp of the fixed width
  of 19 characters, a non-empty label and a display value without \<^verbatim>\<open>": "\<close>, a
  sensor text \<^verbatim>\<open>label: display\<close> and an action label without \<^verbatim>\<open>". Action: "\<close>,
  and a display value without surrounding whitespace, the record holds the timestamp,
  the display value and the action name as logged, and the label without its first
  character.
\<close>

lemma logged_line_fields:
  assumes ts: "length ts = 19" and label: "label \<noteq> []"
    and label_sep: "\<not> sublist '': '' label" and disp_sep: "\<not> sublist '': '' disp"
    and data_sep: "\<not> sublist ''. Action: '' (label @ '': '' @ disp)"
    and disp_strip: "py_strip disp = disp"
    and act_sep: "\<not> sublist ''. Action: '' act"
  shows "parse_log_entry rnd (log_entry ts (label @ '': '' @ disp) act) =
      Some [(''Timestamp'', ts),
            (''Sensor_Type'', tl label),
            (''Sensor_Reading'', disp),
            (''Actuator_Action'', action_name_of act),
            (''Is_Critical'', is_critical_text (action_name_of act)),
            (''Cloud_Sync_ID'', ''CS-'' @ str_nat rnd)]"
proof -
  let ?line = "log_entry ts (label @ '': '' @ disp) act"
  from label obtain l0 ltl where l: "label = l0 # ltl"
    by (cases label) auto
  define data where "data = ltl @ '': '' @ disp"
  have stamp: "take 19 (drop 1 ?line) = ts"
    using ts by (simp add: log_entry_def)
  have "drop 23 ?line = drop 22 (ts @ ''] '' @ label @ '': '' @ disp @ ''. Action: '' @ act)"
    by (simp add: log_entry_def)
  also have "\<dots> = drop 3 (''] '' @ label @ '': '' @ disp @ ''. Action: '' @ act)"
    using ts by simp
  also have "\<dots> = data @ ''. Action: '' @ act"
    using l by (simp add: data_def)
  finally have rest: "drop 23 ?line = data @ ''. Action: '' @ act" .
  have "\<not> sublist ''. Action: '' data"
    using data_sep l by (simp add: sublist_Cons_right data_def)
  then have "\<not> sublist ''. Action: '' (data @ butlast ''. Action: '')"
    using no_border_sublist [of "''. Action: ''" data] by auto
  then have "split_on ''. Action: '' (data @ ''. Action: '' @ act)
      = data # split_on ''. Action: '' act"
    by (intro split_on_first) simp_all
  then have parts: "split_on ''. Action: '' (drop 23 ?line) = data # act # []"
    using act_sep rest by (simp add: split_on_no_sep)
  have "\<not> sublist '': '' ltl"
    using label_sep l by (simp add: sublist_Cons_right)
  then have "\<not> sublist '': '' (ltl @ butlast '': '')"
    using no_border_sublist [of "'': ''" ltl] by auto
  then have "split_on '': '' (ltl @ '': '' @ disp) = ltl # split_on '': '' disp"
    by (intro split_on_first) simp_all
  then have sensor: "split_on '': '' data = ltl # disp # []"
    using disp_sep by (simp add: split_on_no_sep data_def)
  show ?thesis
    unfolding parse_log_entry_def parse_body_parts [OF parts sensor] stamp disp_strip
    using l by simp
qed

text \<open>
  Claim C1 says that parsing a line of \<^verbatim>\<open>log_action\<close> recovers timestamp, metric
  label, display value and action name. On the line that the moisture category logs
  when it starts the pump at the reading 35.0, whose display value \<^verbatim>\<open>35.0%\<close>
  contains no separator token, the code recovers timestamp, display value and action
  name, but \<^verbatim>\<open>Sensor_Type\<close> is \<^verbatim>\<open>oil_Moisture\<close>, not \<^verbatim>\<open>Soil_Moisture\<close>: the
  logger writes 22 characters before the label, and the parser cuts at offset 23.
\<close>

theorem roundtrip_logged_line:
  "snd (moisture_control (fmt_const ''35.0'') 35 all_off)
     = (''Soil_Moisture: 35.0%'', ''Pump ON (Irrigation START)'')
   \<and> \<not> sublist '': '' ''35.0%'' \<and> \<not> sublist ''. Action: '' ''35.0%''
   \<and> log_entry ''2025-01-01 00:00:00'' (''Soil_Moisture'' @ '': '' @ ''35.0%'')
        ''Pump ON (Irrigation START)''
     = ''[2025-01-01 00:00:00] Soil_Moisture: 35.0%. Action: Pump ON (Irrigation START)''
   \<and> parse_log_entry 1234
        (log_entry ''2025-01-01 00:00:00'' (''Soil_Moisture'' @ '': '' @ ''35.0%'')
           ''Pump ON (Irrigation START)'')
     = Some [(''Timestamp'', ''2025-01-01 00:00:00''),
             (''Sensor_Type'', ''oil_Moisture''),
             (''Sensor_Reading'', ''35.0%''),
             (''Actuator_Action'', ''Pump ON''),
             (''Is_Critical'', ''Yes''),
             (''Cloud_Sync_ID'', ''CS-1234'')]"
  by (simp add: moisture_control_def thresholds all_off_def fmt_const_def
        parse_defs log_entry_def py_strip_def is_space_def CRITICAL_ACTIONS_def sublist_code
        str_nat_1234 del: str_nat.simps)

subsection \<open>Malformed lines\<close>

lemma parse_log_entry_eq:
  "parse_log_entry rnd line =
     (case split_on ''. Action: '' (drop 23 line) of
        data # action # parts \<Rightarrow>
          (case split_on '': '' data of
             stype # svalue # parts' \<Rightarrow>
               Some [(''Timestamp'', take 19 (drop 1 line)),
                     (''Sensor_Type'', stype),
                     (''Sensor_Reading'', py_strip svalue),
                     (''Actuator_Action'', action_name_of action),
                     (''Is_Critical'', is_critical_text (action_name_of action)),
                     (''Cloud_Sync_ID'', ''CS-'' @ str_nat rnd)]
           | _ \<Rightarrow> None)
      | _ \<Rightarrow> None)"
  unfolding parse_log_entry_def parse_body_eq
  by (simp split: list.splits)

lemma parse_keys:
  "parse_log_entry rnd line = Some r \<Longrightarrow>
     map fst r = [''Timestamp'', ''Sensor_Type'', ''Sensor_Reading'', ''Actuator_Action'',
                  ''Is_Critical'', ''Cloud_Sync_ID'']"
  by (auto simp: parse_log_entry_eq split: list.splits)

lemma parse_none_any_rnd:
  "parse_log_entry rnd line = None \<Longrightarrow> parse_log_entry rnd' line = None"
  by (auto simp: parse_log_entry_eq split: list.splits)

lemma parse_no_separator:
  assumes "\<not> sublist ''. Action: '' line"
  shows "parse_log_entry rnd line = None"
proof -
  have "sublist (drop 23 line) line"
    by simp
  with assms have "\<not> sublist ''. Action: '' (drop 23 line)"
    using sublist_order.order_trans by blast
  then have "split_on ''. Action: '' (drop 23 line) = [drop 23 line]"
    by (rule split_on_no_sep)
  then show ?thesis
    by (simp add: parse_log_entry_eq)
qed

lemma parse_short:
  assumes "length line \<le> 23"
  shows "parse_log_entry rnd line = None"
  using assms by (simp add: parse_log_entry_eq)

lemma length_cons_first: "ps \<noteq> [] \<Longrightarrow> length (cons_first c ps) = length ps"
  by (cases ps) simp_all

lemma split_on_sep_two:
  assumes "sep \<noteq> []" and "sublist sep s"
  shows "2 \<le> length (split_on sep s)"
  using assms(2)
proof (induction s)
  case Nil
  with assms(1) show ?case by simp
next
  case (Cons c cs)
  show ?case
  proof (cases "prefix sep (c # cs)")
    case True
    have "1 \<le> length (split_on sep (drop (length sep) (c # cs)))"
      using split_on_not_Nil [of sep "drop (length sep) (c # cs)"]
      by (cases "split_on sep (drop (length sep) (c # cs))") simp_all
    with True assms(1) show ?thesis
      by simp
  next
    case False
    with Cons.prems have "sublist sep cs"
      by (simp add: sublist_Cons_right)
    then have "2 \<le> length (split_on sep cs)"
      by (rule Cons.IH)
    with False show ?thesis
      by (simp add: length_cons_first)
  qed
qed

lemma split_on_two_iff:
  assumes "sep \<noteq> []"
  shows "(2 \<le> length (split_on sep s)) = sublist sep s"
proof
  assume two: "2 \<le> length (split_on sep s)"
  show "sublist sep s"
  proof (rule ccontr)
    assume "\<not> sublist sep s"
    then have "split_on sep s = [s]"
      by (rule split_on_no_sep)
    with two show False
      by simp
  qed
next
  assume "sublist sep s"
  with assms show "2 \<le> length (split_on sep s)"
    by (rule split_on_sep_two)
qed

lemma two_parts: "(2 \<le> length xs) = (\<exists>a b rest. xs = a # b # rest)"
  by (cases xs rule: list.exhaust; cases "tl xs") auto

lemma parse_none_iff:
  "(parse_log_entry rnd line = None) =
     (\<not> sublist ''. Action: '' (drop 23 line)
      \<or> \<not> sublist '': '' (hd (split_on ''. Action: '' (drop 23 line))))"
proof -
  have "(parse_log_entry rnd line \<noteq> None) =
      (2 \<le> length (split_on ''. Action: '' (drop 23 line))
       \<and> 2 \<le> length (split_on '': '' (hd (split_on ''. Action: '' (drop 23 line)))))"
    by (auto simp: parse_log_entry_eq two_parts split: list.splits)
  then have "(parse_log_entry rnd line \<noteq> None) =
      (sublist ''. Action: '' (drop 23 line)
       \<and> sublist '': '' (hd (split_on ''. Action: '' (drop 23 line))))"
    by (simp only: split_on_two_iff list.distinct not_False_eq_True)
  then show ?thesis
    by blast
qed

lemma parse_not_empty: "parse_log_entry rnd line \<noteq> Some []"
  using parse_keys [of rnd line "[]"] by auto




section \<open>Properties of the batch export\<close>

subsection \<open>The read loop\<close>

lemma read_loop_none:
  assumes "\<forall>line\<in>set lines. parse_log_entry (rand draws) (py_strip line) = None"
  shows "read_loop rand draws lines processed_data = processed_data"
  using assms by (induction lines) simp_all

lemma read_loop_acc:
  "read_loop rand draws lines processed_data
     = processed_data @ read_loop rand draws lines []"
proof (induction lines arbitrary: draws processed_data)
  case Nil
  then show ?case by simp
next
  case (Cons line lines)
  show ?case
  proof (cases "parse_log_entry (rand draws) (py_strip line)")
    case None
    with Cons.IH [of draws processed_data] show ?thesis by simp
  next
    case (Some entry)
    with Cons.IH [of "Suc draws" "processed_data @ [entry]"] Cons.IH [of "Suc draws" "[entry]"]
         Cons.IH [of "Suc draws" processed_data] Cons.IH [of "Suc draws" "[]"]
    show ?thesis by simp
  qed
qed

lemma read_loop_append:
  "read_loop rand draws (lines @ lines') []
     = read_loop rand draws lines []
       @ read_loop rand (draws + length (read_loop rand draws lines [])) lines' []"
proof (induction lines arbitrary: draws)
  case Nil
  then show ?case by simp
next
  case (Cons line lines)
  show ?case
  proof (cases "parse_log_entry (rand draws) (py_strip line)")
    case None
    with Cons.IH [of draws] show ?thesis by simp
  next
    case (Some entry)
    then have ne: "entry \<noteq> []"
      using parse_not_empty [of "rand draws" "py_strip line"] by auto
    have "read_loop rand draws ((line # lines) @ lines') []
        = [entry] @ read_loop rand (Suc draws) (lines @ lines') []"
      using Some ne read_loop_acc [of rand "Suc draws" "lines @ lines'" "[entry]"] by simp
    moreover have "read_loop rand draws (line # lines) []
        = [entry] @ read_loop rand (Suc draws) lines []"
      using Some ne read_loop_acc [of rand "Suc draws" lines "[entry]"] by simp
    ultimately show ?thesis
      using Cons.IH [of "Suc draws"] by simp
  qed
qed

lemma read_loop_keys:
  assumes "\<forall>r\<in>set processed_data. map fst r = F"
    and "F = [''Timestamp'', ''Sensor_Type'', ''Sensor_Reading'', ''Actuator_Action'',
              ''Is_Critical'', ''Cloud_Sync_ID'']"
  shows "\<forall>r\<in>set (read_loop rand draws lines processed_data). map fst r = F"
  using assms(1)
proof (induction lines arbitrary: draws processed_data)
  case Nil
  then show ?case by simp
next
  case (Cons line lines)
  show ?case
  proof (cases "parse_log_entry (rand draws) (py_strip line)")
    case None
    with Cons show ?thesis by simp
  next
    case (Some entry)
    then have "map fst entry = F"
      using parse_keys assms(2) by blast
    with Cons.prems have "\<forall>r\<in>set (processed_data @ [entry]). map fst r = F"
      by simp
    then have "\<forall>r\<in>set (read_loop rand (Suc draws) lines (processed_data @ [entry])).
        map fst r = F"
      by (rule Cons.IH)
    moreover have "\<forall>r\<in>set (read_loop rand (Suc draws) lines processed_data). map fst r = F"
      using Cons.prems by (rule Cons.IH)
    ultimately show ?thesis
      using Some by simp
  qed
qed

subsection \<open>Writing the rows\<close>

lemma dict_to_list_own_keys:
  assumes "distinct (map fst rowdict)"
  shows "dict_to_list (map fst rowdict) rowdict = Inr (map snd rowdict)"
proof -
  have "\<not> list_ex (\<lambda>k. k \<notin> set (map fst rowdict)) (map fst rowdict)"
    by (simp add: list_ex_iff)
  moreover have "map (\<lambda>key. case map_of rowdict key of Some v \<Rightarrow> v | None \<Rightarrow> []) (map fst rowdict)
      = map snd rowdict"
    using assms by (auto simp: map_of_is_SomeI)
  ultimately show ?thesis
    by (simp add: dict_to_list_def)
qed

lemma writerows_same_keys:
  assumes "distinct F" and "\<forall>r\<in>set rows. map fst r = F"
  shows "writerows writerow F rows csvfile
      = (csvfile @ concat (map (\<lambda>entry. writerow (map snd entry)) rows), None)"
  using assms(2)
proof (induction rows arbitrary: csvfile)
  case Nil
  then show ?case by simp
next
  case (Cons r rows)
  then have "map fst r = F"
    by simp
  with assms(1) have "dict_to_list F r = Inr (map snd r)"
    using dict_to_list_own_keys [of r] by simp
  with Cons show ?case
    by simp
qed

lemma sample_lines:
  "text_lines sample_log = [sample_line_1 @ [newline], garbage_line @ [newline],
                            sample_line_2 @ [newline]]"
  by (simp add: text_lines_def sample_log_def sample_line_1_def sample_line_2_def
        garbage_line_def newline_def carriage_return_def)

lemma sample_strip:
  "py_strip (sample_line_1 @ [newline]) = sample_line_1"
  "py_strip (garbage_line @ [newline]) = garbage_line"
  "py_strip (sample_line_2 @ [newline]) = sample_line_2"
  by (simp_all add: py_strip_def is_space_def sample_line_1_def sample_line_2_def
        garbage_line_def newline_def)

lemma sample_parse:
  "parse_log_entry 1000 sample_line_1 =
     Some [(''Timestamp'', ''2025-01-01 00:00:00''), (''Sensor_Type'', ''oisture''),
           (''Sensor_Reading'', ''35.0%''), (''Actuator_Action'', ''Pump ON''),
           (''Is_Critical'', ''Yes''), (''Cloud_Sync_ID'', ''CS-1000'')]"
  "parse_log_entry 1000 garbage_line = None"
  "parse_log_entry 1001 garbage_line = None"
  "parse_log_entry 1001 sample_line_2 =
     Some [(''Timestamp'', ''2025-01-01 00:00:05''), (''Sensor_Type'', ''umidity''),
           (''Sensor_Reading'', ''70.0%''), (''Actuator_Action'', ''Humidity: No Change''),
           (''Is_Critical'', ''No''), (''Cloud_Sync_ID'', ''CS-1001'')]"
  by (simp_all add: parse_log_entry_eq sample_line_1_def sample_line_2_def garbage_line_def
        action_name_of_def
        is_critical_text_def CRITICAL_ACTIONS_def sublist_code py_strip_def is_space_def
        str_nat_samples del: str_nat.simps)

lemma sample_records:
  "read_loop sample_rand 0 (text_lines sample_log) [] =
     [[(''Timestamp'', ''2025-01-01 00:00:00''), (''Sensor_Type'', ''oisture''),
       (''Sensor_Reading'', ''35.0%''), (''Actuator_Action'', ''Pump ON''),
       (''Is_Critical'', ''Yes''), (''Cloud_Sync_ID'', ''CS-1000'')],
      [(''Timestamp'', ''2025-01-01 00:00:05''), (''Sensor_Type'', ''umidity''),
       (''Sensor_Reading'', ''70.0%''), (''Actuator_Action'', ''Humidity: No Change''),
       (''Is_Critical'', ''No''), (''Cloud_Sync_ID'', ''CS-1001'')]]"
  by (simp add: sample_lines sample_strip sample_rand_def sample_parse)

lemma garbage_lines:
  "text_lines garbage_log = [garbage_line @ [newline], [newline], ''too short'']"
  by (simp add: text_lines_def garbage_log_def garbage_line_def newline_def carriage_return_def)

text \<open>
  Claim C7: when the records parsed from the log file are not empty, the export file
  holds the header row, which is the field names of the first record, followed by one
  data row per record, in the order of \<open>processed_data\<close>. That order is the order
  of the lines of the file: the records of the lines \<open>lines @ lines'\<close> are the records
  of \<open>lines\<close> followed by the records of \<open>lines'\<close>.
\<close>

theorem csv_rows_in_order:
  assumes "fs LOCAL_LOG_FILE = Some content"
    and "read_loop rand 0 (text_lines content) [] = processed_data"
    and "processed_data \<noteq> []"
  shows "read_local_buffer_and_sync writerow rand fs =
      (fs(CLOUD_READY_CSV \<mapsto>
            writerow (map fst (hd processed_data))
            @ concat (map (\<lambda>entry. writerow (map snd entry)) processed_data)),
       Exported (length processed_data))
    \<and> read_loop rand draws (lines @ lines') []
       = read_loop rand draws lines []
         @ read_loop rand (draws + length (read_loop rand draws lines [])) lines' []"
proof -
  let ?F = "[''Timestamp'', ''Sensor_Type'', ''Sensor_Reading'', ''Actuator_Action'',
             ''Is_Critical'', ''Cloud_Sync_ID'']"
  have keys: "\<forall>r\<in>set processed_data. map fst r = ?F"
    using read_loop_keys [of "[]" ?F rand 0 "text_lines content"] assms(2) by simp
  with assms(3) have hd_keys: "map fst (hd processed_data) = ?F"
    by (cases processed_data) simp_all
  have "distinct ?F"
    by simp
  then have "writerows writerow ?F processed_data (writerow ?F)
      = (writerow ?F @ concat (map (\<lambda>entry. writerow (map snd entry)) processed_data), None)"
    using keys by (rule writerows_same_keys)
  then have "read_local_buffer_and_sync writerow rand fs =
      (fs(CLOUD_READY_CSV \<mapsto>
            writerow (map fst (hd processed_data))
            @ concat (map (\<lambda>entry. writerow (map snd entry)) processed_data)),
       Exported (length processed_data))"
    unfolding read_local_buffer_and_sync_def
    using assms by (simp add: Let_def hd_keys writeheader_def)
  then show ?thesis
    using read_loop_append by blast
qed

theorem csv_rows_in_order_witness:
  "sample_fs LOCAL_LOG_FILE = Some sample_log
   \<and> read_local_buffer_and_sync sample_writerow sample_rand sample_fs =
      (sample_fs(CLOUD_READY_CSV \<mapsto>
          sample_writerow [''Timestamp'', ''Sensor_Type'', ''Sensor_Reading'',
                           ''Actuator_Action'', ''Is_Critical'', ''Cloud_Sync_ID'']
          @ sample_writerow [''2025-01-01 00:00:00'', ''oisture'', ''35.0%'', ''Pump ON'',
                             ''Yes'', ''CS-1000'']
          @ sample_writerow [''2025-01-01 00:00:05'', ''umidity'', ''70.0%'',
                             ''Humidity: No Change'', ''No'', ''CS-1001'']),
       Exported 2)"
proof -
  have log: "sample_fs LOCAL_LOG_FILE = Some sample_log"
    by (simp add: sample_fs_def)
  from csv_rows_in_order [of sample_fs sample_log sample_rand _ sample_writerow,
      OF log sample_records] log
  show ?thesis
    by simp
qed

subsection \<open>The source log file\<close>

text \<open>
  Claim C9: a run of \<^verbatim>\<open>read_local_buffer_and_sync\<close> leaves
  \<^verbatim>\<open>ActuatorLog_Local.txt\<close> as it was, whichever path the run takes: the log file
  after the run is the log file before it. The only file the run writes is
  \<^verbatim>\<open>CloudSync_Ready.csv\<close>; every other file is unchanged.
\<close>

theorem log_file_untouched:
  "fst (read_local_buffer_and_sync writerow rand fs) LOCAL_LOG_FILE = fs LOCAL_LOG_FILE
   \<and> (name \<noteq> CLOUD_READY_CSV \<longrightarrow>
        fst (read_local_buffer_and_sync writerow rand fs) name = fs name)"
  by (auto simp: read_local_buffer_and_sync_def Let_def LOCAL_LOG_FILE_def CLOUD_READY_CSV_def
        split: option.splits prod.splits)

theorem log_file_untouched_witness:
  "LOCAL_LOG_FILE \<noteq> CLOUD_READY_CSV
   \<and> fst (read_local_buffer_and_sync sample_writerow sample_rand sample_fs) LOCAL_LOG_FILE
       = Some sample_log"
proof -
  have ne: "LOCAL_LOG_FILE \<noteq> CLOUD_READY_CSV"
    by (simp add: LOCAL_LOG_FILE_def CLOUD_READY_CSV_def)
  with log_file_untouched [of sample_writerow sample_rand sample_fs LOCAL_LOG_FILE]
  show ?thesis
    by (simp add: sample_fs_def)
qed

subsection \<open>Nothing to synchronise\<close>

text \<open>
  Claim C10: if the log file exists and none of its lines parses into a record, the run
  returns early and changes no file: \<^verbatim>\<open>CloudSync_Ready.csv\<close> is neither created
  nor written, so an export of an earlier run stays as it was.
\<close>

theorem no_records_no_export:
  assumes "fs LOCAL_LOG_FILE = Some content"
    and "\<forall>line\<in>set (text_lines content). parse_log_entry rnd (py_strip line) = None"
  shows "read_local_buffer_and_sync writerow rand fs = (fs, NothingToSync)"
proof -
  from assms(2) have "\<forall>line\<in>set (text_lines content).
      parse_log_entry (rand 0) (py_strip line) = None"
    using parse_none_any_rnd by blast
  then have "read_loop rand 0 (text_lines content) [] = []"
    by (rule read_loop_none)
  with assms(1) show ?thesis
    by (simp add: read_local_buffer_and_sync_def)
qed

theorem no_records_no_export_witness:
  "garbage_fs LOCAL_LOG_FILE = Some garbage_log
   \<and> parse_log_entry 0 (py_strip (garbage_line @ [newline])) = None
   \<and> parse_log_entry 0 (py_strip [newline]) = None
   \<and> parse_log_entry 0 (py_strip ''too short'') = None
   \<and> read_local_buffer_and_sync sample_writerow sample_rand garbage_fs
       = (garbage_fs, NothingToSync)
   \<and> fst (read_local_buffer_and_sync sample_writerow sample_rand garbage_fs) CLOUD_READY_CSV
       = Some ''earlier export''"
proof -
  have log: "garbage_fs LOCAL_LOG_FILE = Some garbage_log"
    by (simp add: garbage_fs_def LOCAL_LOG_FILE_def CLOUD_READY_CSV_def)
  have none: "parse_log_entry 0 (py_strip (garbage_line @ [newline])) = None"
    "parse_log_entry 0 (py_strip [newline]) = None"
    "parse_log_entry 0 (py_strip ''too short'') = None"
    by (simp_all add: parse_log_entry_eq py_strip_def is_space_def newline_def garbage_line_def)
  then have "\<forall>line\<in>set (text_lines garbage_log). parse_log_entry 0 (py_strip line) = None"
    by (simp add: garbage_lines)
  with log have "read_local_buffer_and_sync sample_writerow sample_rand garbage_fs
       = (garbage_fs, NothingToSync)"
    by (rule no_records_no_export)
  with log none show ?thesis
    by (simp add: garbage_fs_def)
qed

end
